theory Spec2Isabelle
  imports Main
begin

section \<open>The page-range parser of the split tool\<close>

text \<open>
  This theory embeds \<^verbatim>\<open>parseRanges\<close> of \<^verbatim>\<open>src/components/PDFSplitter.tsx\<close>
  (lines 89 to 140) together with the JavaScript string primitives it calls
  (\<^verbatim>\<open>String.prototype.trim\<close>, \<^verbatim>\<open>split\<close>, \<^verbatim>\<open>includes\<close> and the global
  \<^verbatim>\<open>parseInt\<close>), and the two callers \<^verbatim>\<open>validateRanges\<close> and
  \<^verbatim>\<open>handleRangeChange\<close>.

  Modelling conventions.
  \<^item> A JavaScript string is a \<^typ>\<open>string\<close>; a \<^typ>\<open>char\<close> is read as the code
    unit with the same number, so the strings covered are those over U+0000 to U+00FF.
  \<^item> A JavaScript number that holds an integer is an \<^typ>\<open>int\<close>, and \<^verbatim>\<open>NaN\<close> is
    \<^term>\<open>None :: int option\<close>. \<^verbatim>\<open>parseInt\<close> returns here the exact integer its
    digits denote, where JavaScript returns the nearest double: the two agree
    on every number below \<open>2^53\<close>, and a number from \<open>2^53\<close> on is rounded to
    a double that is again at least \<open>2^53\<close>. So for a page count below \<open>2^53\<close>
    every comparison of the source has the same outcome here, and every
    number that passes the checks is exact; only the number that the message
    of line 132 prints can differ, for a page of \<open>2^53\<close> or more. A statement
    below that depends on this carries the bound \<open>2^53\<close> in its text.
  \<^item> \<^verbatim>\<open>throw new Error(...)\<close> is the left injection of a sum type. The error
    value has one constructor for each message of the source and carries the
    values that the message interpolates.
  \<^item> \<^verbatim>\<open>totalPages\<close>, a React state variable captured by the closure, is a
    parameter.
\<close>

subsection \<open>String primitives\<close>

text \<open>
  The code units that \<^verbatim>\<open>trim\<close> and \<^verbatim>\<open>parseInt\<close> skip (ECMAScript
  \<^verbatim>\<open>WhiteSpace\<close> and \<^verbatim>\<open>LineTerminator\<close>) below U+0100: TAB, LF, VT, FF, CR,
  SP and NBSP.
\<close>

definition isWhiteSpace :: "char \<Rightarrow> bool" where
  "isWhiteSpace c \<longleftrightarrow>
     c = CHR 0x09 \<or> c = CHR 0x0A \<or> c = CHR 0x0B \<or> c = CHR 0x0C \<or> c = CHR 0x0D \<or>
     c = CHR 0x20 \<or> c = CHR 0xA0"

definition trimStart :: "string \<Rightarrow> string" where
  "trimStart s = dropWhile isWhiteSpace s"

definition trim :: "string \<Rightarrow> string" where
  "trim s = rev (dropWhile isWhiteSpace (rev (dropWhile isWhiteSpace s)))"

text \<open>
  \<^verbatim>\<open>s.split(c)\<close> for a one-character separator: the pieces between the
  occurrences of \<open>c\<close>, empty pieces included; a string without \<open>c\<close> is its own
  single piece, also when it is empty.
\<close>

fun split_str :: "char \<Rightarrow> string \<Rightarrow> string list" where
  "split_str c [] = [[]]"
| "split_str c (x # xs) =
     (if x = c then [] # split_str c xs
      else (x # hd (split_str c xs)) # tl (split_str c xs))"

definition includes_chr :: "string \<Rightarrow> char \<Rightarrow> bool" where
  "includes_chr s c \<longleftrightarrow> c \<in> set s"

subsection \<open>\<^verbatim>\<open>parseInt\<close> with no radix argument\<close>

text \<open>
  The value of a code unit as a digit: \<open>0\<close> to \<open>9\<close>, then \<open>a\<close> to \<open>z\<close> and
  \<open>A\<close> to \<open>Z\<close> for 10 to 35; 36 for anything else, which is a digit in no radix.
\<close>

definition digitVal :: "char \<Rightarrow> nat" where
  "digitVal c =
     (let n = (of_char c :: nat) in
      if 48 \<le> n \<and> n \<le> 57 then n - 48
      else if 97 \<le> n \<and> n \<le> 122 then n - 87
      else if 65 \<le> n \<and> n \<le> 90 then n - 55
      else 36)"

definition isRadixDigit :: "nat \<Rightarrow> char \<Rightarrow> bool" where
  "isRadixDigit R c \<longleftrightarrow> digitVal c < R"

definition mathInt :: "nat \<Rightarrow> string \<Rightarrow> nat" where
  "mathInt R Z = foldl (\<lambda>acc c. acc * R + digitVal c) 0 Z"

text \<open>
  ECMAScript \<^verbatim>\<open>parseInt(string)\<close>: skip leading white space, read an optional
  sign, switch to radix 16 after a \<^verbatim>\<open>0x\<close> or \<^verbatim>\<open>0X\<close> prefix, take the longest
  prefix of digits of the radix and ignore whatever follows it; \<^verbatim>\<open>NaN\<close> when
  that prefix is empty. (\<open>-0\<close> and \<open>+0\<close> are both \<open>0\<close> here: the source only
  compares the result.)
\<close>

definition parseInt :: "string \<Rightarrow> int option" where
  "parseInt str =
     (let S = trimStart str;
          sign = (if S \<noteq> [] \<and> hd S = CHR ''-'' then - 1 else 1 :: int);
          S1 = (if S \<noteq> [] \<and> (hd S = CHR ''+'' \<or> hd S = CHR ''-'') then tl S else S);
          stripPrefix = (length S1 \<ge> 2 \<and> (take 2 S1 = ''0x'' \<or> take 2 S1 = ''0X''));
          R = (if stripPrefix then 16 else 10);
          S2 = (if stripPrefix then drop 2 S1 else S1);
          Z = takeWhile (isRadixDigit R) S2
      in if Z = [] then None else Some (sign * int (mathInt R Z)))"

subsection \<open>Errors\<close>

text \<open>
  One constructor for each message thrown by \<^verbatim>\<open>parseRanges\<close>, with the values
  the template literal interpolates:
  \<^item> \<open>NoRanges\<close>: line 91, nothing interpolated;
  \<^item> \<open>InvalidRange part\<close>: line 103;
  \<^item> \<open>NotPositive part\<close>: lines 107 and 128 (the same message);
  \<^item> \<open>RangeTooLarge totalPages part\<close>: line 111;
  \<^item> \<open>StartAfterEnd part\<close>: line 115;
  \<^item> \<open>InvalidPage part\<close>: line 124;
  \<^item> \<open>PageMissing page totalPages\<close>: line 132.
\<close>

datatype range_error =
    NoRanges
  | InvalidRange string
  | NotPositive string
  | RangeTooLarge int string
  | StartAfterEnd string
  | InvalidPage string
  | PageMissing int int

text \<open>The rule each message reports, in the names of the specification's taxonomy.\<close>

datatype error_kind =
  EmptyInput | MalformedToken | NonPositivePage | PageOutOfBounds | InvertedRange

fun kind_of :: "range_error \<Rightarrow> error_kind" where
  "kind_of NoRanges = EmptyInput"
| "kind_of (InvalidRange part) = MalformedToken"
| "kind_of (NotPositive part) = NonPositivePage"
| "kind_of (RangeTooLarge totalPages part) = PageOutOfBounds"
| "kind_of (StartAfterEnd part) = InvertedRange"
| "kind_of (InvalidPage part) = MalformedToken"
| "kind_of (PageMissing page totalPages) = PageOutOfBounds"

text \<open>The token text a message quotes, if it quotes one.\<close>

fun token_of :: "range_error \<Rightarrow> string option" where
  "token_of NoRanges = None"
| "token_of (InvalidRange part) = Some part"
| "token_of (NotPositive part) = Some part"
| "token_of (RangeTooLarge totalPages part) = Some part"
| "token_of (StartAfterEnd part) = Some part"
| "token_of (InvalidPage part) = Some part"
| "token_of (PageMissing page totalPages) = None"

subsection \<open>\<^verbatim>\<open>parseRanges\<close>\<close>

text \<open>
  Array destructuring \<^verbatim>\<open>const [start, end] = xs\<close> reads \<open>xs[0]\<close> and \<open>xs[1]\<close>;
  a missing element is \<^verbatim>\<open>undefined\<close>, for which \<^verbatim>\<open>isNaN\<close> is true, so it is
  \<^term>\<open>None :: int option\<close> here.
\<close>

definition element :: "int option list \<Rightarrow> nat \<Rightarrow> int option" where
  "element xs i = (if i < length xs then xs ! i else None)"

text \<open>
  The body of the \<^verbatim>\<open>for\<close> loop (lines 98 to 136) for one trimmed part. The
  tests \<^verbatim>\<open>isNaN(start) || isNaN(end)\<close> and \<^verbatim>\<open>isNaN(page)\<close> are the \<open>None\<close>
  branches of the case distinctions.
\<close>

definition parsePart :: "int \<Rightarrow> string \<Rightarrow> range_error + (int \<times> int)" where
  "parsePart totalPages part =
     (if includes_chr part CHR ''-'' then
        (let nums = map (\<lambda>num. parseInt (trim num)) (split_str CHR ''-'' part)
         in case (element nums 0, element nums 1) of
              (Some start, Some end') \<Rightarrow>
                if start < 1 \<or> end' < 1 then Inl (NotPositive part)
                else if start > totalPages \<or> end' > totalPages
                  then Inl (RangeTooLarge totalPages part)
                else if start > end' then Inl (StartAfterEnd part)
                else Inr (start, end')
            | _ \<Rightarrow> Inl (InvalidRange part))
      else
        (case parseInt part of
           None \<Rightarrow> Inl (InvalidPage part)
         | Some page \<Rightarrow>
             if page < 1 then Inl (NotPositive part)
             else if page > totalPages then Inl (PageMissing page totalPages)
             else Inr (page, page)))"

text \<open>
  The loop over \<open>parts\<close>: \<open>ranges\<close> is the array built so far, a throw leaves
  the loop at once.
\<close>

fun parseParts ::
  "int \<Rightarrow> string list \<Rightarrow> (int \<times> int) list \<Rightarrow> range_error + (int \<times> int) list" where
  "parseParts totalPages [] ranges = Inr ranges"
| "parseParts totalPages (part # parts) ranges =
     (case parsePart totalPages part of
        Inl e \<Rightarrow> Inl e
      | Inr r \<Rightarrow> parseParts totalPages parts (ranges @ [r]))"

definition parseRanges :: "int \<Rightarrow> string \<Rightarrow> range_error + (int \<times> int) list" where
  "parseRanges totalPages rangeString =
     (if trim rangeString = [] then Inl NoRanges
      else parseParts totalPages (map trim (split_str CHR '','' rangeString)) [])"

subsection \<open>The callers\<close>

text \<open>
  \<^verbatim>\<open>validateRanges\<close> stores the message of the caught error in the state
  variable \<open>rangeError\<close> (\<open>None\<close> for the empty message) and returns whether
  parsing succeeded. \<^verbatim>\<open>handleRangeChange\<close> validates only a non-blank value and
  only once a document with at least one page is loaded; otherwise it clears
  the error. Both return the new \<open>rangeError\<close>.
\<close>

definition validateRanges :: "int \<Rightarrow> string \<Rightarrow> range_error option \<times> bool" where
  "validateRanges totalPages rangeString =
     (case parseRanges totalPages rangeString of
        Inr ranges \<Rightarrow> (None, True)
      | Inl e \<Rightarrow> (Some e, False))"

definition handleRangeChange :: "int \<Rightarrow> string \<Rightarrow> range_error option" where
  "handleRangeChange totalPages v =
     (if trim v \<noteq> [] \<and> totalPages > 0 then fst (validateRanges totalPages v) else None)"

subsection \<open>Number to string\<close>

text \<open>
  The decimal numeral of an integer: its digits, after a minus sign when it is
  negative. For an integer \<open>n\<close> of absolute value below \<open>2^53\<close> this is what
  \<^verbatim>\<open>String(n)\<close> and the concatenation \<^verbatim>\<open>"1-" + n\<close> produce (JavaScript
  changes to exponent notation at \<open>10^21\<close>, and \<open>n + 1\<close> is exact up to
  \<open>2^53\<close>); the statements that use it for \<^verbatim>\<open>String\<close> stay below that bound.
\<close>

definition digitChar :: "nat \<Rightarrow> char" where
  "digitChar d = char_of (48 + d)"

function decimal :: "nat \<Rightarrow> string" where
  "decimal n = (if n < 10 then [digitChar n] else decimal (n div 10) @ [digitChar (n mod 10)])"
  by pat_completeness auto
termination
  by (relation "measure id") auto

declare decimal.simps [simp del]

definition String_of :: "int \<Rightarrow> string" where
  "String_of n = (if n < 0 then CHR ''-'' # decimal (nat (- n)) else decimal (nat n))"

subsection \<open>The rule order of the specification\<close>

text \<open>
  The numbers the code reads from one trimmed part, as lines 100 and 121 do:
  \<open>start\<close> and \<open>end\<close>, the \<^verbatim>\<open>parseInt\<close> of the first two pieces of a part
  that contains \<open>-\<close>, and \<open>page\<close>, the \<^verbatim>\<open>parseInt\<close> of the part, otherwise.
  This is the code's reading of a token, not the grammar of the specification.
\<close>

definition token_numbers :: "string \<Rightarrow> int option list" where
  "token_numbers part =
     (if includes_chr part CHR ''-'' then
        (let nums = map (\<lambda>num. parseInt (trim num)) (split_str CHR ''-'' part)
         in [element nums 0, element nums 1])
      else [parseInt part])"



text \<open>
  The specification's per-token validation, written after its words: the rules
  in the order (1) numeric well-formedness, (2) positivity, (3) upper bound,
  (4) range ordering, and the kind of the first rule that the numbers of a
  token violate, \<open>None\<close> when they violate none.
\<close>

definition first_violation :: "int \<Rightarrow> int option list \<Rightarrow> error_kind option" where
  "first_violation totalPages ns =
     (if list_ex (\<lambda>n. n = None) ns then Some MalformedToken
      else if list_ex (\<lambda>n. case n of None \<Rightarrow> False | Some v \<Rightarrow> v < 1) ns
        then Some NonPositivePage
      else if list_ex (\<lambda>n. case n of None \<Rightarrow> False | Some v \<Rightarrow> v > totalPages) ns
        then Some PageOutOfBounds
      else if (case ns of [Some start, Some end'] \<Rightarrow> start > end' | _ \<Rightarrow> False)
        then Some InvertedRange
      else None)"

section \<open>Properties of the primitives\<close>

lemma split_str_not_Nil: "split_str c s \<noteq> []"
  by (induction s) auto

lemma split_str_no_sep: "c \<notin> set s \<Longrightarrow> split_str c s = [s]"
  by (induction s) auto

lemma trim_Nil_iff: "trim s = [] \<longleftrightarrow> (\<forall>c\<in>set s. isWhiteSpace c)"
proof
  assume "trim s = []"
  then have a: "\<forall>c\<in>set (dropWhile isWhiteSpace s). isWhiteSpace c"
    by (simp add: trim_def dropWhile_eq_Nil_conv)
  have "dropWhile isWhiteSpace s = []"
  proof (rule ccontr)
    assume n: "dropWhile isWhiteSpace s \<noteq> []"
    then have "\<not> isWhiteSpace (hd (dropWhile isWhiteSpace s))"
      by (rule hd_dropWhile)
    moreover have "hd (dropWhile isWhiteSpace s) \<in> set (dropWhile isWhiteSpace s)"
      using n by simp
    ultimately show False using a by blast
  qed
  then show "\<forall>c\<in>set s. isWhiteSpace c"
    by (simp add: dropWhile_eq_Nil_conv)
next
  assume "\<forall>c\<in>set s. isWhiteSpace c"
  then show "trim s = []" by (auto simp: trim_def dest: set_dropWhileD)
qed

lemma trim_ws_prefix: "\<forall>c\<in>set w. isWhiteSpace c \<Longrightarrow> trim (w @ s) = trim s"
  by (simp add: trim_def dropWhile_append)

lemma trim_ws_suffix:
  assumes "\<forall>c\<in>set w. isWhiteSpace c"
  shows "trim (s @ w) = trim s"
proof (cases "\<forall>c\<in>set s. isWhiteSpace c")
  case True
  then have "trim s = []" by (simp add: trim_Nil_iff)
  moreover have "trim (s @ w) = []" using True assms by (auto simp: trim_Nil_iff)
  ultimately show ?thesis by simp
next
  case False
  then have "dropWhile isWhiteSpace (s @ w) = dropWhile isWhiteSpace s @ w"
    by (auto simp: dropWhile_append)
  then show ?thesis using assms
    by (simp add: trim_def dropWhile_append)
qed

lemma trim_id:
  assumes "s \<noteq> []" "\<not> isWhiteSpace (hd s)" "\<not> isWhiteSpace (last s)"
  shows "trim s = s"
proof -
  have 1: "dropWhile isWhiteSpace s = s" using assms by (simp add: dropWhile_eq_self_iff)
  have 2: "dropWhile isWhiteSpace (rev s) = rev s" using assms
    by (simp add: dropWhile_eq_self_iff hd_rev)
  show ?thesis by (simp add: trim_def 1 2)
qed

lemma parseParts_Inr_iff:
  "parseParts T parts acc = Inr rs \<longleftrightarrow>
     (\<exists>ivs. list_all2 (\<lambda>p iv. parsePart T p = Inr iv) parts ivs \<and> rs = acc @ ivs)"
proof (induction parts arbitrary: acc)
  case Nil
  then show ?case by auto
next
  case (Cons p ps)
  show ?case
  proof (cases "parsePart T p")
    case (Inl e)
    then show ?thesis by (auto simp: list_all2_Cons1)
  next
    case (Inr r)
    then show ?thesis using Cons.IH [of "acc @ [r]"]
      by (auto simp: list_all2_Cons1)
  qed
qed


lemma parseParts_Inl:
  assumes "parseParts T parts acc = Inl e"
  shows "\<exists>pre t post. parts = pre @ t # post \<and>
           (\<forall>u\<in>set pre. \<exists>iv. parsePart T u = Inr iv) \<and> parsePart T t = Inl e"
  using assms
proof (induction parts arbitrary: acc)
  case Nil
  then show ?case by simp
next
  case (Cons p ps)
  show ?case
  proof (cases "parsePart T p")
    case (Inl e')
    with Cons.prems have "e' = e" by simp
    with Inl have "p # ps = [] @ p # ps \<and> (\<forall>u\<in>set []. \<exists>iv. parsePart T u = Inr iv) \<and> parsePart T p = Inl e"
      by simp
    then show ?thesis by blast
  next
    case (Inr r)
    with Cons.prems have "parseParts T ps (acc @ [r]) = Inl e" by simp
    from Cons.IH [OF this] obtain pre t post where
      h: "ps = pre @ t # post" "\<forall>u\<in>set pre. \<exists>iv. parsePart T u = Inr iv" "parsePart T t = Inl e"
      by blast
    then have "p # ps = (p # pre) @ t # post \<and>
       (\<forall>u\<in>set (p # pre). \<exists>iv. parsePart T u = Inr iv) \<and> parsePart T t = Inl e"
      using Inr by simp
    then show ?thesis by blast
  qed
qed


lemma parsePart_kind:
  "case parsePart T p of
     Inl e \<Rightarrow> first_violation T (token_numbers p) = Some (kind_of e)
   | Inr iv \<Rightarrow> first_violation T (token_numbers p) = None"
  by (auto simp: parsePart_def token_numbers_def first_violation_def Let_def
           split: option.splits)

lemma parsePart_Inr_bounds:
  "parsePart T p = Inr (a, b) \<Longrightarrow> 1 \<le> a \<and> a \<le> b \<and> b \<le> T"
  by (auto simp: parsePart_def Let_def split: if_splits option.splits)

lemma parsePart_mono:
  "parsePart T p = Inr r \<Longrightarrow> T \<le> T' \<Longrightarrow> parsePart T' p = Inr r"
  by (auto simp: parsePart_def Let_def split: if_splits option.splits)

lemma digitVal_digitChar: "d < 10 \<Longrightarrow> digitVal (digitChar d) = d"
  by (simp add: digitVal_def digitChar_def Let_def)

lemma dec_digit_not_special:
  assumes "isRadixDigit 10 c"
  shows "\<not> isWhiteSpace c" "c \<noteq> CHR ''-''" "c \<noteq> CHR ''+''" "c \<noteq> CHR '',''"
    "c \<noteq> CHR ''x''" "c \<noteq> CHR ''X''"
  using assms by (auto simp: isRadixDigit_def digitVal_def isWhiteSpace_def)

lemma mathInt_snoc: "mathInt R (ds @ [c]) = mathInt R ds * R + digitVal c"
  by (simp add: mathInt_def)

lemma decimal_not_Nil: "decimal n \<noteq> []"
  by (subst decimal.simps) simp

lemma decimal_digits: "c \<in> set (decimal n) \<Longrightarrow> isRadixDigit 10 c"
proof (induction n rule: decimal.induct)
  case (1 n)
  show ?case
  proof (cases "n < 10")
    case True
    with "1.prems" have "c = digitChar n" by (subst (asm) decimal.simps) simp
    with True show ?thesis by (simp add: isRadixDigit_def digitVal_digitChar)
  next
    case False
    with "1.prems" have "c \<in> set (decimal (n div 10)) \<or> c = digitChar (n mod 10)"
      by (subst (asm) decimal.simps) auto
    then show ?thesis using "1.IH" False
      by (auto simp: isRadixDigit_def digitVal_digitChar)
  qed
qed

lemma mathInt_decimal: "mathInt 10 (decimal n) = n"
proof (induction n rule: decimal.induct)
  case (1 n)
  show ?case
  proof (cases "n < 10")
    case True
    then show ?thesis
      by (subst decimal.simps) (simp add: mathInt_def digitVal_digitChar)
  next
    case False
    then have "mathInt 10 (decimal n) = mathInt 10 (decimal (n div 10)) * 10 + n mod 10"
      by (subst decimal.simps) (simp add: mathInt_snoc digitVal_digitChar)
    with "1.IH" False show ?thesis by simp
  qed
qed

lemma takeWhile_prefix:
  assumes "\<forall>c\<in>set ds. P c" "rest = [] \<or> \<not> P (hd rest)"
  shows "takeWhile P (ds @ rest) = ds"
  using assms by (cases rest) (auto simp: takeWhile_append2)

lemma parseInt_digits:
  assumes "ds \<noteq> []" "\<forall>c\<in>set ds. isRadixDigit 10 c"
    and "rest = [] \<or> \<not> isRadixDigit 10 (hd rest)"
    and "take 2 (ds @ rest) \<noteq> ''0x''" "take 2 (ds @ rest) \<noteq> ''0X''"
  shows "parseInt (ds @ rest) = Some (int (mathInt 10 ds))"
proof -
  define s where "s = ds @ rest"
  from assms(1) obtain d ds' where ds: "ds = d # ds'" by (cases ds) auto
  with assms(2) have d: "isRadixDigit 10 d" by simp
  have hd: "hd s = d" "s \<noteq> []" by (simp_all add: s_def ds)
  have 1: "trimStart s = s"
    using dec_digit_not_special(1) [OF d] hd by (cases s) (simp_all add: trimStart_def)
  have 2: "hd s \<noteq> CHR ''-''" "hd s \<noteq> CHR ''+''"
    using dec_digit_not_special(2,3) [OF d] hd by simp_all
  have 3: "takeWhile (isRadixDigit 10) s = ds"
    unfolding s_def using assms(2,3) by (rule takeWhile_prefix)
  have 4: "take 2 s \<noteq> ''0x''" "take 2 s \<noteq> ''0X''"
    unfolding s_def by (rule assms(4), rule assms(5))
  have "parseInt s = Some (int (mathInt 10 ds))"
    unfolding parseInt_def Let_def 1 using 2 3 4 assms(1) by simp
  then show ?thesis by (simp only: s_def)
qed

lemma take2_decimal: "take 2 (decimal n) \<noteq> ''0x''" "take 2 (decimal n) \<noteq> ''0X''"
proof -
  have "\<forall>c\<in>set (take 2 (decimal n)). isRadixDigit 10 c"
    using decimal_digits by (meson in_set_takeD)
  then show "take 2 (decimal n) \<noteq> ''0x''" "take 2 (decimal n) \<noteq> ''0X''"
    using dec_digit_not_special(5,6) by fastforce+
qed

lemma parseInt_decimal: "parseInt (decimal n) = Some (int n)"
  using parseInt_digits [of "decimal n" "[]"] decimal_not_Nil decimal_digits take2_decimal
  by (simp add: mathInt_decimal)

lemma trim_decimal: "trim (decimal n) = decimal n"
proof (rule trim_id)
  show "decimal n \<noteq> []" by (rule decimal_not_Nil)
  have "hd (decimal n) \<in> set (decimal n)" "last (decimal n) \<in> set (decimal n)"
    using decimal_not_Nil by simp_all
  then show "\<not> isWhiteSpace (hd (decimal n))" "\<not> isWhiteSpace (last (decimal n))"
    using decimal_digits dec_digit_not_special(1) by blast+
qed

lemma parseRanges_Inr_iff:
  "parseRanges T s = Inr rs \<longleftrightarrow>
     trim s \<noteq> [] \<and> list_all2 (\<lambda>t iv. parsePart T (trim t) = Inr iv) (split_str CHR '','' s) rs"
  by (simp add: parseRanges_def parseParts_Inr_iff list_all2_map1)

lemma parsePart_empty: "parsePart T [] = Inl (InvalidPage [])"
  by (simp add: parsePart_def includes_chr_def parseInt_def trimStart_def)

lemma ws_not_special:
  assumes "isWhiteSpace c"
  shows "c \<noteq> CHR '',''" "c \<noteq> CHR ''-''"
  using assms by (auto simp: isWhiteSpace_def)

lemma blank_single_token:
  assumes "trim s = []"
  shows "split_str CHR '','' s = [s]"
proof -
  have "CHR '','' \<notin> set s"
    using assms ws_not_special(1) by (auto simp: trim_Nil_iff)
  then show ?thesis by (rule split_str_no_sep)
qed

lemma valid_tokens_not_blank:
  assumes "list_all2 (\<lambda>t iv. parsePart T (trim t) = Inr iv) (split_str CHR '','' s) ivs"
  shows "trim s \<noteq> []"
proof
  assume b: "trim s = []"
  with assms have "list_all2 (\<lambda>t iv. parsePart T (trim t) = Inr iv) [s] ivs"
    by (simp add: blank_single_token)
  then show False by (auto simp: list_all2_Cons1 b parsePart_empty)
qed

lemma split_str_append:
  "c \<notin> set xs \<Longrightarrow> split_str c (xs @ c # ys) = xs # split_str c ys"
  by (induction xs) auto

lemma decimal_no_dash: "CHR ''-'' \<notin> set (decimal n)"
  using decimal_digits dec_digit_not_special(2) by blast

lemma decimal_no_comma: "CHR '','' \<notin> set (decimal n)"
  using decimal_digits dec_digit_not_special(4) by blast

lemma parsePart_single_token:
  "parsePart T (decimal N) =
     (if int N < 1 then Inl (NotPositive (decimal N))
      else if int N > T then Inl (PageMissing (int N) T)
      else Inr (int N, int N))"
  by (simp add: parsePart_def includes_chr_def decimal_no_dash parseInt_decimal)

lemma parsePart_range_token:
  assumes "\<forall>c\<in>set w1. isWhiteSpace c" "\<forall>c\<in>set w2. isWhiteSpace c"
    and "part = decimal A @ w1 @ ''-'' @ w2 @ decimal B"
  shows "parsePart T part =
     (if int A < 1 \<or> int B < 1 then Inl (NotPositive part)
      else if int A > T \<or> int B > T then Inl (RangeTooLarge T part)
      else if int A > int B then Inl (StartAfterEnd part)
      else Inr (int A, int B))"
proof -
  have 1: "CHR ''-'' \<notin> set (decimal A @ w1)" "CHR ''-'' \<notin> set (w2 @ decimal B)"
    using assms(1,2) ws_not_special(2) decimal_no_dash by auto
  have p: "part = (decimal A @ w1) @ CHR ''-'' # (w2 @ decimal B)"
    by (simp add: assms(3))
  have sp: "split_str CHR ''-'' part = [decimal A @ w1, w2 @ decimal B]"
    unfolding p split_str_append [OF 1(1)] split_str_no_sep [OF 1(2)] by (rule refl)
  have inc: "includes_chr part CHR ''-''"
    by (simp add: includes_chr_def assms(3))
  have t1: "trim (decimal A @ w1) = decimal A"
    using assms(1) by (simp add: trim_ws_suffix trim_decimal)
  have t2: "trim (w2 @ decimal B) = decimal B"
    using assms(2) by (simp add: trim_ws_prefix trim_decimal)
  show ?thesis
    unfolding parsePart_def
    by (simp add: inc sp t1 t2 parseInt_decimal element_def)
qed

lemma String_of_int: "String_of (int N) = decimal N"
  by (simp add: String_of_def)

lemma String_of_nonneg: "0 \<le> n \<Longrightarrow> String_of n = decimal (nat n)"
  by (simp add: String_of_def)

lemma parseRanges_single_token:
  assumes "CHR '','' \<notin> set s" "trim s \<noteq> []"
  shows "parseRanges T s = (case parsePart T (trim s) of Inl e \<Rightarrow> Inl e | Inr r \<Rightarrow> Inr [r])"
  using assms by (simp add: parseRanges_def split_str_no_sep split: sum.splits)

lemma split_str_two_includes:
  assumes "split_str c s = a # b # more"
  shows "c \<in> set s"
proof (rule ccontr)
  assume "c \<notin> set s"
  then have "split_str c s = [s]" by (rule split_str_no_sep)
  with assms show False by simp
qed

lemma decimal_1: "decimal 1 = ''1''"
  by code_simp






lemma trim_Nil: "trim [] = []"
  by (simp add: trim_def)







lemma parsePart_zero_kind:
  "\<exists>e. parsePart 0 p = Inl e \<and> kind_of e =
     (if list_ex (\<lambda>n. n = None) (token_numbers p) then MalformedToken
      else if list_ex (\<lambda>n. case n of None \<Rightarrow> False | Some v \<Rightarrow> v < 1) (token_numbers p)
        then NonPositivePage
      else PageOutOfBounds)"
  by (auto simp: parsePart_def token_numbers_def Let_def split: option.splits)

lemma parsePart_Inl_payload_guarded:
  assumes "parsePart T p = Inl e"
  shows "token_of e = Some p \<or>
         (\<exists>page. parseInt p = Some page \<and> CHR ''-'' \<notin> set p \<and> T < page \<and>
                  token_of e = None \<and> (page < 2 ^ 53 \<longrightarrow> e = PageMissing page T))"
  using assms
  by (auto simp: parsePart_def includes_chr_def Let_def split: if_splits option.splits)

section \<open>Properties of \<^verbatim>\<open>parseRanges\<close>\<close>

text \<open>
  Claim C1. Let the input split at its commas into \<open>k\<close> tokens, each of which
  (trimmed) passes every check of the loop body for the given \<open>totalPages\<close>,
  the token at position \<open>i\<close> giving the interval \<open>ivs ! i\<close>. Then
  \<^verbatim>\<open>parseRanges\<close> succeeds and returns exactly these \<open>k\<close> intervals in the order
  of the tokens, nothing merged, dropped or reordered. The interval of a token
  that is the decimal numeral of \<open>N\<close> is \<open>(N, N)\<close>, and the interval of a token
  made of the numerals of \<open>A\<close> and \<open>B\<close> around a \<open>-\<close>, with or without white space
  next to the \<open>-\<close>, is \<open>(A, B)\<close>.
\<close>

theorem parseRanges_valid_tokens:
  assumes "list_all2 (\<lambda>t iv. parsePart T (trim t) = Inr iv) (split_str CHR '','' s) ivs"
  shows "parseRanges T s = Inr ivs \<and> length ivs = length (split_str CHR '','' s) \<and>
    (\<forall>i<length ivs. \<forall>N. trim (split_str CHR '','' s ! i) = String_of (int N)
         \<longrightarrow> ivs ! i = (int N, int N)) \<and>
    (\<forall>i<length ivs. \<forall>A B w1 w2.
         (\<forall>c\<in>set (w1 @ w2). isWhiteSpace c) \<and>
         trim (split_str CHR '','' s ! i) = String_of (int A) @ w1 @ ''-'' @ w2 @ String_of (int B)
         \<longrightarrow> ivs ! i = (int A, int B))"
proof (intro conjI allI impI)
  show "parseRanges T s = Inr ivs"
    using assms valid_tokens_not_blank [OF assms] by (simp add: parseRanges_Inr_iff)
  show len: "length ivs = length (split_str CHR '','' s)"
    using assms by (simp add: list_all2_lengthD)
next
  fix i N
  assume i: "i < length ivs" and t: "trim (split_str CHR '','' s ! i) = String_of (int N)"
  from assms i have "parsePart T (trim (split_str CHR '','' s ! i)) = Inr (ivs ! i)"
    by (simp add: list_all2_conv_all_nth)
  then have "parsePart T (decimal N) = Inr (ivs ! i)"
    by (simp add: t String_of_int)
  then show "ivs ! i = (int N, int N)"
    by (simp add: parsePart_single_token split: if_splits)
next
  fix i A B w1 w2
  assume i: "i < length ivs"
    and t: "(\<forall>c\<in>set (w1 @ w2). isWhiteSpace c) \<and>
         trim (split_str CHR '','' s ! i) = String_of (int A) @ w1 @ ''-'' @ w2 @ String_of (int B)"
  define part where "part = decimal A @ w1 @ ''-'' @ w2 @ decimal B"
  from assms i have "parsePart T (trim (split_str CHR '','' s ! i)) = Inr (ivs ! i)"
    by (simp add: list_all2_conv_all_nth)
  then have "parsePart T part = Inr (ivs ! i)"
    using t by (simp add: String_of_int part_def)
  moreover have "\<forall>c\<in>set w1. isWhiteSpace c" "\<forall>c\<in>set w2. isWhiteSpace c"
    using t by auto
  ultimately show "ivs ! i = (int A, int B)"
    using parsePart_range_token [of w1 w2 part A B T]
    by (simp add: part_def split: if_splits)
qed

text \<open>
  The example of the specification: \<^verbatim>\<open>"1-3, 5, 7-10"\<close> with twelve pages.
\<close>

theorem parseRanges_valid_tokens_witness:
  "parseRanges 12 ''1-3, 5, 7-10'' = Inr [(1, 3), (5, 5), (7, 10)]
     \<and> length [(1, 3), (5, 5), (7::int, 10::int)] = length (split_str CHR '','' ''1-3, 5, 7-10'')"
proof -
  have "list_all2 (\<lambda>t iv. parsePart 12 (trim t) = Inr iv)
          (split_str CHR '','' ''1-3, 5, 7-10'') [(1, 3), (5, 5), (7, 10)]"
    by code_simp
  from parseRanges_valid_tokens [OF this] show ?thesis by blast
qed




text \<open>
  Claim C3. Whenever \<^verbatim>\<open>parseRanges\<close> succeeds, every interval \<open>(start, end)\<close>
  of the returned sequence satisfies \<open>1 \<le> start\<close>, \<open>start \<le> end\<close> and
  \<open>end \<le> totalPages\<close>.
\<close>

theorem parseRanges_interval_bounds:
  assumes "parseRanges T s = Inr rs" "(start, end') \<in> set rs"
  shows "1 \<le> start \<and> start \<le> end' \<and> end' \<le> T"
proof -
  from assms(1)
  have "list_all2 (\<lambda>t iv. parsePart T (trim t) = Inr iv) (split_str CHR '','' s) rs"
    by (simp add: parseRanges_Inr_iff)
  with assms(2) obtain t where "parsePart T (trim t) = Inr (start, end')"
    by (auto simp: in_set_conv_nth list_all2_conv_all_nth)
  then show ?thesis by (rule parsePart_Inr_bounds)
qed

text \<open>
  The third interval of the result for \<^verbatim>\<open>"1-3, 5, 7-10"\<close> with twelve pages.
\<close>

theorem parseRanges_interval_bounds_witness:
  "parseRanges 12 ''1-3, 5, 7-10'' = Inr [(1, 3), (5, 5), (7, 10)]
     \<and> (1::int) \<le> 7 \<and> (7::int) \<le> 10 \<and> (10::int) \<le> 12"
proof -
  have h: "parseRanges 12 ''1-3, 5, 7-10'' = Inr [(1, 3), (5, 5), (7, 10)]"
    by code_simp
  have "(7, 10) \<in> set [(1, 3), (5, 5), (7::int, 10::int)]" by simp
  from parseRanges_interval_bounds [OF h this] h show ?thesis by simp
qed

text \<open>
  Claim C4 does not hold as stated: with \<open>totalPages = 0\<close> the rules keep their
  order, so a malformed token is reported as malformed and a page \<open>0\<close> as not
  positive.
\<close>

theorem parseRanges_no_pages_counterexample:
  "''abc'' \<noteq> [] \<and> parseRanges 0 ''abc'' = Inl (InvalidPage ''abc'')
     \<and> kind_of (InvalidPage ''abc'') = MalformedToken
     \<and> parseRanges 0 ''0'' = Inl (NotPositive ''0'')
     \<and> kind_of (NotPositive ''0'') = NonPositivePage"
  by code_simp

text \<open>
  Claim C4, amended. With \<open>totalPages = 0\<close> \<^verbatim>\<open>parseRanges\<close> fails on every
  input: with \<open>EmptyInput\<close> on a blank input, and otherwise with the error of
  the first token alone, whose kind follows the rule order: \<open>MalformedToken\<close>
  when one of the numbers of the token does not parse, else \<open>NonPositivePage\<close>
  when one of them is below 1, else \<open>PageOutOfBounds\<close>.
\<close>

theorem parseRanges_no_pages:
  "\<exists>e. parseRanges 0 s = Inl e \<and> kind_of e =
     (if trim s = [] then EmptyInput
      else if list_ex (\<lambda>n. n = None) (token_numbers (trim (hd (split_str CHR '','' s))))
        then MalformedToken
      else if list_ex (\<lambda>n. case n of None \<Rightarrow> False | Some v \<Rightarrow> v < 1)
                (token_numbers (trim (hd (split_str CHR '','' s))))
        then NonPositivePage
      else PageOutOfBounds)"
proof (cases "trim s = []")
  case True
  then show ?thesis by (simp add: parseRanges_def)
next
  case False
  obtain t ts where sp: "split_str CHR '','' s = t # ts"
    using split_str_not_Nil [of "CHR '',''" s] by (cases "split_str CHR '','' s") auto
  obtain e where e: "parsePart 0 (trim t) = Inl e"
    "kind_of e =
     (if list_ex (\<lambda>n. n = None) (token_numbers (trim t)) then MalformedToken
      else if list_ex (\<lambda>n. case n of None \<Rightarrow> False | Some v \<Rightarrow> v < 1) (token_numbers (trim t))
        then NonPositivePage
      else PageOutOfBounds)"
    using parsePart_zero_kind [of "trim t"] by blast
  have "parseRanges 0 s = Inl e"
    using False by (simp add: parseRanges_def sp e(1))
  with e(2) False show ?thesis by (simp add: sp)
qed

text \<open>
  For \<^verbatim>\<open>"3, x"\<close> the first token is the page 3, which does not exist.
\<close>

theorem parseRanges_no_pages_witness:
  "parseRanges 0 ''3, x'' = Inl (PageMissing 3 0)
     \<and> kind_of (PageMissing 3 0) = PageOutOfBounds"
proof -
  have p: "parseRanges 0 ''3, x'' = Inl (PageMissing 3 0)" by code_simp
  have t: "trim ''3, x'' \<noteq> []" by code_simp
  have n: "token_numbers (trim (hd (split_str CHR '','' ''3, x''))) = [Some 3]" by code_simp
  from parseRanges_no_pages [of "''3, x''"] p t show ?thesis by (simp add: n)
qed

text \<open>
  Claim C5 does not hold as stated: the parts are trimmed before the loop, so
  the error for the token \<^verbatim>\<open>" 0 "\<close> quotes \<^verbatim>\<open>"0"\<close>; and the message for a
  single page beyond \<open>totalPages\<close> quotes the parsed number, not the token
  (\<open>6\<close> for the token \<^verbatim>\<open>"06"\<close>).
\<close>

theorem parseRanges_error_payload_counterexample:
  "split_str CHR '','' ''1, 0 '' = [''1'', '' 0 '']
     \<and> parseRanges 5 ''1, 0 '' = Inl (NotPositive ''0'')
     \<and> token_of (NotPositive ''0'') \<noteq> Some '' 0 ''
     \<and> split_str CHR '','' ''06'' = [''06'']
     \<and> parseRanges 5 ''06'' = Inl (PageMissing 6 5)
     \<and> token_of (PageMissing 6 5) = None"
  by code_simp

text \<open>
  Claim C5, amended. For a page count below \<open>2^53\<close>, a failure of
  \<^verbatim>\<open>parseRanges\<close> on a non-blank input is the error that the loop body raises
  for the first token \<open>t\<close> that fails. Its kind is the first rule that \<open>t\<close>
  violates, and it carries the trimmed text of \<open>t\<close>, except for a single page
  beyond \<open>totalPages\<close>: that error carries no token text but \<open>totalPages\<close> and
  the page number that \<^verbatim>\<open>parseInt\<close> returned, which is the number the digits
  denote when that is below \<open>2^53\<close> (nothing is said here about the number
  printed for a longer one, which JavaScript rounds).
\<close>

theorem parseRanges_error_payload:
  assumes "parseRanges T s = Inl e" "e \<noteq> NoRanges" "T < 2 ^ 53"
  shows "\<exists>pre t post. split_str CHR '','' s = pre @ t # post \<and>
           (\<forall>u\<in>set pre. \<exists>iv. parsePart T (trim u) = Inr iv) \<and>
           parsePart T (trim t) = Inl e \<and>
           first_violation T (token_numbers (trim t)) = Some (kind_of e) \<and>
           (token_of e = Some (trim t) \<or>
            (\<exists>page. parseInt (trim t) = Some page \<and> CHR ''-'' \<notin> set (trim t) \<and>
                     T < page \<and> token_of e = None \<and>
                     (page < 2 ^ 53 \<longrightarrow> e = PageMissing page T)))"
proof -
  from assms have "parseParts T (map trim (split_str CHR '','' s)) [] = Inl e"
    by (auto simp: parseRanges_def split: if_splits)
  from parseParts_Inl [OF this] obtain pre' t' post' where
    m: "map trim (split_str CHR '','' s) = pre' @ t' # post'"
    and ok: "\<forall>u\<in>set pre'. \<exists>iv. parsePart T u = Inr iv"
    and bad: "parsePart T t' = Inl e"
    by blast
  from m obtain pre t post where
    sp: "split_str CHR '','' s = pre @ t # post" and pre: "pre' = map trim pre" and t: "t' = trim t"
    by (auto simp: map_eq_append_conv map_eq_Cons_conv)
  have 1: "\<forall>u\<in>set pre. \<exists>iv. parsePart T (trim u) = Inr iv"
    using ok pre by simp
  have 2: "parsePart T (trim t) = Inl e" using bad t by simp
  have 3: "first_violation T (token_numbers (trim t)) = Some (kind_of e)"
    using parsePart_kind [of T "trim t"] 2 by simp
  from sp 1 2 3 parsePart_Inl_payload_guarded [OF 2] show ?thesis by blast
qed

text \<open>
  \<^verbatim>\<open>"1, 06 "\<close> with five pages: the second token fails and is reported as
  page 6.
\<close>

theorem parseRanges_error_payload_witness:
  "parseRanges 5 ''1, 06 '' = Inl (PageMissing 6 5) \<and> PageMissing 6 5 \<noteq> NoRanges \<and>
   (5::int) < 2 ^ 53 \<and>
   (\<exists>pre t post. split_str CHR '','' ''1, 06 '' = pre @ t # post \<and>
       parsePart 5 (trim t) = Inl (PageMissing 6 5) \<and>
       first_violation 5 (token_numbers (trim t)) = Some PageOutOfBounds \<and>
       parseInt (trim t) = Some 6)"
proof -
  have h: "parseRanges 5 ''1, 06 '' = Inl (PageMissing 6 5)" by code_simp
  have n: "PageMissing 6 5 \<noteq> NoRanges" by simp
  have b: "(5::int) < 2 ^ 53" by simp
  from parseRanges_error_payload [OF h n b] obtain pre t post page where
    1: "split_str CHR '','' ''1, 06 '' = pre @ t # post"
    and 2: "parsePart 5 (trim t) = Inl (PageMissing 6 5)"
    and 3: "first_violation 5 (token_numbers (trim t)) = Some (kind_of (PageMissing 6 5))"
    and 4: "parseInt (trim t) = Some page" "page < 2 ^ 53 \<longrightarrow> PageMissing 6 5 = PageMissing page 5"
    by auto
  have "page = 6"
  proof (rule ccontr)
    assume ne: "page \<noteq> 6"
    with 4(2) have big: "\<not> page < 2 ^ 53" by auto
    from 2 4(1) have "page = 6"
      by (auto simp: parsePart_def Let_def split: if_splits option.splits)
    with ne show False by simp
  qed
  with 1 2 3 4(1) h n b show ?thesis by auto
qed

text \<open>
  Claim C6. If \<^verbatim>\<open>parseRanges\<close> succeeds on \<open>s\<close> with page count \<open>T\<close>, it
  succeeds on \<open>s\<close> with every larger page count \<open>T'\<close> and returns the same
  sequence of intervals.
\<close>

theorem parseRanges_monotone:
  assumes "parseRanges T s = Inr rs" "T < T'"
  shows "parseRanges T' s = Inr rs"
proof -
  from assms(1) have ne: "trim s \<noteq> []"
    and a: "list_all2 (\<lambda>t iv. parsePart T (trim t) = Inr iv) (split_str CHR '','' s) rs"
    by (simp_all add: parseRanges_Inr_iff)
  have "list_all2 (\<lambda>t iv. parsePart T' (trim t) = Inr iv) (split_str CHR '','' s) rs"
    using a
  proof (rule list_all2_mono)
    fix t iv
    assume "parsePart T (trim t) = Inr iv"
    then show "parsePart T' (trim t) = Inr iv"
      using assms(2) by (auto intro: parsePart_mono)
  qed
  with ne show ?thesis by (simp add: parseRanges_Inr_iff)
qed

text \<open>
  The same input with twelve and with forty pages.
\<close>

theorem parseRanges_monotone_witness:
  "parseRanges 12 ''1-3, 5, 7-10'' = Inr [(1, 3), (5, 5), (7, 10)]
     \<and> parseRanges 40 ''1-3, 5, 7-10'' = Inr [(1, 3), (5, 5), (7, 10)]"
proof -
  have h: "parseRanges 12 ''1-3, 5, 7-10'' = Inr [(1, 3), (5, 5), (7, 10)]"
    by code_simp
  have "(12::int) < 40" by simp
  from parseRanges_monotone [OF h this] h show ?thesis by simp
qed

text \<open>
  Claim C7 does not hold for \<open>totalPages = 0\<close>: \<^verbatim>\<open>"1-0"\<close> is rejected, its end
  is not positive.
\<close>

theorem parseRanges_boundary_zero_counterexample:
  "parseRanges 0 (''1-'' @ String_of 0) = Inl (NotPositive ''1-0'')
     \<and> kind_of (NotPositive ''1-0'') = NonPositivePage"
  by code_simp

text \<open>
  Claim C7, amended. For every \<open>totalPages\<close> with \<open>1 \<le> totalPages < 2^53\<close>,
  \<^verbatim>\<open>parseRanges\<close> succeeds on \<^verbatim>\<open>"1-" + totalPages\<close> and returns the one interval
  \<open>(1, totalPages)\<close>; for every \<open>totalPages\<close> with \<open>0 \<le> totalPages < 2^53\<close> it
  fails on \<^verbatim>\<open>String(totalPages + 1)\<close> with an error of kind \<open>PageOutOfBounds\<close>.
  (Below \<open>2^53\<close> the number, its successor and their decimal numerals are
  exact in JavaScript.)
\<close>

theorem parseRanges_boundary:
  "(1 \<le> T \<and> T < 2 ^ 53 \<longrightarrow> parseRanges T (''1-'' @ String_of T) = Inr [(1, T)]) \<and>
   (0 \<le> T \<and> T < 2 ^ 53 \<longrightarrow>
      parseRanges T (String_of (T + 1)) = Inl (PageMissing (T + 1) T)
      \<and> kind_of (PageMissing (T + 1) T) = PageOutOfBounds)"
proof (intro conjI impI)
  assume "1 \<le> T \<and> T < 2 ^ 53"
  then have T: "1 \<le> T" by simp
  define n where "n = nat T"
  define s where "s = ''1-'' @ decimal n"
  have n: "int n = T" "1 \<le> int n" using T by (simp_all add: n_def)
  have s: "s = decimal 1 @ [] @ ''-'' @ [] @ decimal n" unfolding s_def decimal_1 by simp
  have last: "last s = last (decimal n)" by (simp add: s_def decimal_not_Nil)
  have "last (decimal n) \<in> set (decimal n)" using decimal_not_Nil by simp
  then have "\<not> isWhiteSpace (last s)"
    using decimal_digits dec_digit_not_special(1) last by metis
  moreover have "\<not> isWhiteSpace (hd s)" by (simp add: s_def isWhiteSpace_def)
  ultimately have tr: "trim s = s" by (intro trim_id) (simp_all add: s_def)
  have nc: "CHR '','' \<notin> set s" by (simp add: s_def decimal_no_comma)
  have "parsePart T s = Inr (1, T)"
    using parsePart_range_token [of "[]" "[]" s 1 n T] s n by simp
  moreover have "trim s \<noteq> []" unfolding tr by (simp add: s_def)
  ultimately have "parseRanges T s = Inr [(1, T)]"
    using parseRanges_single_token [OF nc, of T] by (simp add: tr)
  then show "parseRanges T (''1-'' @ String_of T) = Inr [(1, T)]"
    using T by (simp add: s_def n_def String_of_nonneg)
next
  assume "0 \<le> T \<and> T < 2 ^ 53"
  then have T: "0 \<le> T" by simp
  define n where "n = nat (T + 1)"
  have n: "int n = T + 1" using T by (simp add: n_def)
  have "parsePart T (decimal n) = Inl (PageMissing (T + 1) T)"
    using T by (simp add: parsePart_single_token n)
  moreover have "trim (decimal n) \<noteq> []" by (simp add: trim_decimal decimal_not_Nil)
  ultimately have "parseRanges T (decimal n) = Inl (PageMissing (T + 1) T)"
    using parseRanges_single_token [OF decimal_no_comma, of n T] by (simp add: trim_decimal)
  then show "parseRanges T (String_of (T + 1)) = Inl (PageMissing (T + 1) T)"
    using T by (simp add: n_def String_of_nonneg)
next
  show "kind_of (PageMissing (T + 1) T) = PageOutOfBounds" by simp
qed

text \<open>
  Five pages: \<^verbatim>\<open>"1-5"\<close> and \<^verbatim>\<open>"6"\<close>.
\<close>

theorem parseRanges_boundary_witness:
  "(1::int) \<le> 5 \<and> (5::int) < 2 ^ 53 \<and>
   parseRanges 5 ''1-5'' = Inr [(1, 5)] \<and> parseRanges 5 ''6'' = Inl (PageMissing 6 5)
     \<and> kind_of (PageMissing 6 5) = PageOutOfBounds"
proof -
  have "String_of 5 = ''5''" "String_of (5 + 1) = ''6''" by code_simp+
  with parseRanges_boundary [of 5] show ?thesis by simp
qed

text \<open>
  Claim C8. For every \<open>totalPages\<close>, an input that is empty or consists of
  white space only is rejected with the error of kind \<open>EmptyInput\<close>; the result
  is a failure, so no interval is produced.
\<close>

theorem parseRanges_blank:
  assumes "\<forall>c\<in>set s. isWhiteSpace c"
  shows "parseRanges T s = Inl NoRanges \<and> kind_of NoRanges = EmptyInput"
  using assms by (simp add: parseRanges_def trim_Nil_iff)

text \<open>
  The empty string and the string of a space and a tab, with five pages.
\<close>

theorem parseRanges_blank_witness:
  "parseRanges 5 [] = Inl NoRanges \<and> parseRanges 5 [CHR 0x20, CHR 0x09] = Inl NoRanges
     \<and> kind_of NoRanges = EmptyInput"
  using parseRanges_blank [of "[]" 5] parseRanges_blank [of "[CHR 0x20, CHR 0x09]" 5]
  by (simp add: isWhiteSpace_def)

text \<open>
  Claim C9 does not hold as stated: \<^verbatim>\<open>parseInt\<close> reads a token that begins with
  \<^verbatim>\<open>0x\<close> in radix 16. The token \<^verbatim>\<open>"0x"\<close>, a digit followed by a letter, is
  reported as malformed, and \<^verbatim>\<open>"0x10"\<close> is page 16, not the leading integer 0.
\<close>

theorem parsePart_hex_prefix_counterexample:
  "CHR ''-'' \<notin> set ''0x'' \<and> isRadixDigit 10 CHR ''0'' \<and> \<not> isRadixDigit 10 CHR ''x''
     \<and> parseRanges 20 ''0x'' = Inl (InvalidPage ''0x'')
     \<and> kind_of (InvalidPage ''0x'') = MalformedToken
     \<and> parseRanges 20 ''0x10'' = Inr [(16, 16)]"
  by code_simp

text \<open>
  Claim C9, amended. Let the page count be below \<open>2^53\<close>, and let a trimmed
  token contain no \<open>-\<close>, begin with one or more decimal digits \<open>ds\<close> followed by
  a character that is not a decimal digit, and not begin with \<^verbatim>\<open>0x\<close> or
  \<^verbatim>\<open>0X\<close>. Then the loop body does not report it as malformed but takes the
  number \<open>page\<close> that \<open>ds\<close> denotes: it emits \<open>(page, page)\<close> when
  \<open>1 \<le> page \<le> totalPages\<close>, raises the positivity error when \<open>page < 1\<close>, and
  an error of kind \<open>PageOutOfBounds\<close> when \<open>page > totalPages\<close> (the error that
  carries \<open>page\<close> itself when \<open>page < 2^53\<close>). The same holds for
  \<^verbatim>\<open>parseRanges\<close> on an input that consists of this one token.
\<close>

theorem parsePart_digit_prefix:
  assumes "CHR ''-'' \<notin> set part" "part = ds @ rest"
    and "ds \<noteq> []" "\<forall>c\<in>set ds. isRadixDigit 10 c"
    and "rest \<noteq> []" "\<not> isRadixDigit 10 (hd rest)"
    and "take 2 part \<noteq> ''0x''" "take 2 part \<noteq> ''0X''"
    and "page = int (mathInt 10 ds)" and "T < 2 ^ 53"
  shows "(1 \<le> page \<and> page \<le> T \<longrightarrow> parsePart T part = Inr (page, page)) \<and>
    (page < 1 \<longrightarrow> parsePart T part = Inl (NotPositive part)) \<and>
    (T < page \<and> 1 \<le> page \<longrightarrow>
       (\<exists>e. parsePart T part = Inl e \<and> kind_of e = PageOutOfBounds \<and>
            (page < 2 ^ 53 \<longrightarrow> e = PageMissing page T))) \<and>
    (\<forall>s. CHR '','' \<notin> set s \<and> trim s = part \<longrightarrow>
       (1 \<le> page \<and> page \<le> T \<longrightarrow> parseRanges T s = Inr [(page, page)]) \<and>
       (page < 1 \<longrightarrow> parseRanges T s = Inl (NotPositive part)) \<and>
       (T < page \<and> 1 \<le> page \<longrightarrow>
          (\<exists>e. parseRanges T s = Inl e \<and> kind_of e = PageOutOfBounds \<and>
               (page < 2 ^ 53 \<longrightarrow> e = PageMissing page T))))"
proof -
  have "parseInt part = Some page"
    unfolding assms(2,9) using assms(3,4) _ assms(7,8) [unfolded assms(2)]
    by (rule parseInt_digits) (simp add: assms(6))
  then have p: "parsePart T part =
      (if page < 1 then Inl (NotPositive part)
       else if page > T then Inl (PageMissing page T)
       else Inr (page, page))"
    using assms(1) by (simp add: parsePart_def includes_chr_def)
  have "part \<noteq> []" using assms(2,3) by simp
  then show ?thesis
    using p by (auto simp: parseRanges_single_token)
qed

text \<open>
  The token \<^verbatim>\<open>"2a"\<close> with twenty pages, alone and as the input \<^verbatim>\<open>" 2a "\<close>.
\<close>

theorem parsePart_digit_prefix_witness:
  "parsePart 20 ''2a'' = Inr (2, 2) \<and> parseRanges 20 '' 2a '' = Inr [(2, 2)]"
proof -
  have 1: "CHR ''-'' \<notin> set ''2a''" "''2a'' = ''2'' @ ''a''" "''2'' \<noteq> []"
    "\<forall>c\<in>set ''2''. isRadixDigit 10 c" "''a'' \<noteq> []" "\<not> isRadixDigit 10 (hd ''a'')"
    "take 2 ''2a'' \<noteq> ''0x''" "take 2 ''2a'' \<noteq> ''0X''" "2 = int (mathInt 10 ''2'')"
    by code_simp+
  have b: "(20::int) < 2 ^ 53" by simp
  have 2: "CHR '','' \<notin> set '' 2a '' \<and> trim '' 2a '' = ''2a''" by code_simp
  from parsePart_digit_prefix [OF 1 b] 2 show ?thesis by simp
qed

text \<open>
  Claim C10. A token with two or more \<open>-\<close>, whose first two pieces parse as the
  integers \<open>A\<close> and \<open>B\<close> with \<open>1 \<le> A \<le> B \<le> totalPages\<close>, is not reported as
  malformed: the loop body emits \<open>(A, B)\<close> whatever the pieces after the second
  \<open>-\<close> are, and so does \<^verbatim>\<open>parseRanges\<close> on an input that consists of this one
  token.
\<close>

theorem parsePart_extra_dashes:
  assumes "split_str CHR ''-'' part = a # b # c # more"
    and "parseInt (trim a) = Some A" "parseInt (trim b) = Some B"
    and "1 \<le> A" "A \<le> B" "B \<le> T"
  shows "parsePart T part = Inr (A, B) \<and>
    (\<forall>s. CHR '','' \<notin> set s \<and> trim s = part \<longrightarrow> parseRanges T s = Inr [(A, B)])"
proof -
  have inc: "includes_chr part CHR ''-''"
    using split_str_two_includes [OF assms(1)] by (simp add: includes_chr_def)
  have p: "parsePart T part = Inr (A, B)"
    unfolding parsePart_def using assms by (simp add: inc element_def)
  have "part \<noteq> []" using inc by (auto simp: includes_chr_def)
  then show ?thesis
    using p by (auto simp: parseRanges_single_token)
qed

text \<open>
  The token \<^verbatim>\<open>"1-2-3"\<close> with five pages.
\<close>

theorem parsePart_extra_dashes_witness:
  "parsePart 5 ''1-2-3'' = Inr (1, 2) \<and> parseRanges 5 '' 1-2-3'' = Inr [(1, 2)]"
proof -
  have 1: "split_str CHR ''-'' ''1-2-3'' = ''1'' # ''2'' # ''3'' # []" by code_simp
  have 2: "parseInt (trim ''1'') = Some 1" "parseInt (trim ''2'') = Some 2" by code_simp+
  have 3: "CHR '','' \<notin> set '' 1-2-3'' \<and> trim '' 1-2-3'' = ''1-2-3''" by code_simp
  from parsePart_extra_dashes [OF 1 2, of 5] 3 show ?thesis by simp
qed

end
